theory Spec2Isabelle
  imports Complex_Main "HOL-Library.Sublist"
begin

section \<open>Values decoded from a response body\<close>

text \<open>
  The three components (\<open>LiveCognitiveCamera\<close>, \<open>CinematicCognitiveUI\<close>,
  \<open>CognitiveAISystem\<close>) receive whatever \<open>res.json()\<close> decodes and read fields of it
  without checking its shape, so the model keeps the decoded value untyped.
  \<open>Undefined\<close> is never produced by the decoder; it is the result of reading an absent
  property. Numbers are the finite values a decoded number can take. An object is the
  list of its own properties (each key once).
\<close>

datatype jsval =
    Undefined
  | Null
  | JBool bool
  | JNum rat
  | JStr string
  | JArr "jsval list"
  | JObj "(string \<times> jsval) list"

datatype js_error = NetworkError | SyntaxError | TypeError

text \<open>
  \<open>v.k\<close> for the keys the components read (\<open>pipeline\<close>, \<open>interpretation\<close>,
  \<open>summary\<close>, \<open>perception\<close>, \<open>objects\<close>, \<open>risk\<close>, \<open>level\<close>, \<open>label\<close>, \<open>meta\<close>,
  \<open>tone\<close>): reading a property of \<open>undefined\<close> or \<open>null\<close> throws a TypeError, an object
  yields the property or \<open>undefined\<close>, and no primitive or array has a property of one
  of these names.
\<close>

fun getProp :: "jsval \<Rightarrow> string \<Rightarrow> js_error + jsval" where
  "getProp Undefined k = Inl TypeError"
| "getProp Null k = Inl TypeError"
| "getProp (JObj kvs) k = Inr (case map_of kvs k of None \<Rightarrow> Undefined | Some v \<Rightarrow> v)"
| "getProp v k = Inr Undefined"

text \<open>A chain \<open>v.k1.k2...\<close>, stopping at the first access that throws.\<close>

fun getPath :: "jsval \<Rightarrow> string list \<Rightarrow> js_error + jsval" where
  "getPath v [] = Inr v"
| "getPath v (k # ks) = (case getProp v k of Inl e \<Rightarrow> Inl e | Inr w \<Rightarrow> getPath w ks)"

text \<open>Truthiness, as tested by \<open>x && ...\<close> and \<open>x || ...\<close>.\<close>

fun truthy :: "jsval \<Rightarrow> bool" where
  "truthy Undefined = False"
| "truthy Null = False"
| "truthy (JBool b) = b"
| "truthy (JNum n) = (n \<noteq> 0)"
| "truthy (JStr s) = (s \<noteq> [])"
| "truthy (JArr xs) = True"
| "truthy (JObj kvs) = True"

text \<open>
  \<open>a === b\<close>. Primitives are compared by type and value. Arrays and objects are compared
  by reference; the two operands of every comparison in the components come from different
  decoded bodies (or one is a string literal), so two arrays or objects are never the
  same reference.
\<close>

definition strict_eq :: "jsval \<Rightarrow> jsval \<Rightarrow> bool" where
  "strict_eq a b = (case a of JArr xs \<Rightarrow> False | JObj kvs \<Rightarrow> False | _ \<Rightarrow> a = b)"

section \<open>Speech synthesis and other effects\<close>

text \<open>
  A \<open>SpeechSynthesisUtterance\<close>: the text it was constructed from and the attributes the
  components assign (\<open>volume\<close> defaults to 1, \<open>voice\<close> to none). A voice is identified by
  its name.
\<close>

record utterance =
  utterText :: jsval
  rate :: rat
  pitch :: rat
  volume :: rat
  voice :: "string option"

text \<open>The calls a component makes on its environment, in the order it makes them.\<close>

datatype effect =
    GetVoices
  | Cancel
  | Speak utterance
  | Log string
  | ClearInterval
  | SetInterval

definition isSynthCall :: "effect \<Rightarrow> bool" where
  "isSynthCall e =
     (case e of GetVoices \<Rightarrow> True | Cancel \<Rightarrow> True | Speak u \<Rightarrow> True | _ \<Rightarrow> False)"



text \<open>
  The speech engine keeps a queue of utterances, the first being the one that plays:
  \<open>speak\<close> appends, \<open>cancel\<close> empties the queue, and the end of the playing utterance
  removes it. The utterances in flight are those in the queue.
\<close>

datatype engine_input = Call effect | UtteranceEnd

fun engine :: "utterance list \<Rightarrow> engine_input \<Rightarrow> utterance list" where
  "engine q (Call Cancel) = []"
| "engine q (Call (Speak u)) = q @ [u]"
| "engine q (Call e) = q"
| "engine q UtteranceEnd = tl q"

section \<open>Poll responses\<close>

text \<open>
  What one \<open>fetch\<close> followed by \<open>res.json()\<close> can give: \<open>fetch\<close> rejects (no
  connection), or it resolves with a response of some HTTP status whose body either
  decodes to a value or makes \<open>res.json()\<close> reject. The components never read the status.
\<close>

datatype response =
    FetchFailed
  | HttpResponse nat "jsval option"

text \<open>The value \<open>data\<close> bound by \<open>await res.json()\<close>, or the exception thrown before.\<close>

fun fetchJson :: "response \<Rightarrow> js_error + jsval" where
  "fetchJson FetchFailed = Inl NetworkError"
| "fetchJson (HttpResponse status None) = Inl SyntaxError"
| "fetchJson (HttpResponse status (Some data)) = Inr data"

section \<open>Component state\<close>

text \<open>
  The \<open>useState\<close> cells of \<open>LiveCognitiveCamera\<close> and, as far as polling and narration
  go, of \<open>CognitiveAISystem\<close>; \<open>CinematicCognitiveUI\<close> adds \<open>loading\<close> and \<open>history\<close>.
  A handler or timer callback reads the cells of the render it was created in and
  requests updates; the model passes that render's state in and returns the state after
  the updates together with the effects performed.
\<close>

record view_state =
  thought :: jsval
  voiceEnabled :: bool
  lastSpoken :: jsval

record cinematic_state = view_state +
  loading :: bool
  history :: "jsval list"

definition initialView :: view_state where
  "initialView = \<lparr>thought = Null, voiceEnabled = False, lastSpoken = JStr []\<rparr>"

definition initialCinematic :: cinematic_state where
  "initialCinematic =
     \<lparr>thought = Null, voiceEnabled = False, lastSpoken = JStr [], loading = True, history = []\<rparr>"

section \<open>LiveCognitiveCamera\<close>

text \<open>
  \<open>speak\<close> (LiveCognitiveCamera.jsx, lines 12 to 19), the callback of the polling timer
  (lines 23 to 38), the \<open>onClick\<close> of the Enable Voice button (lines 61 to 64) and the
  cleanup of the polling effect (line 40). A state update requested before a later
  statement throws stays requested: the \<open>catch\<close> does not undo \<open>setThought\<close>.
\<close>

definition speak :: "('a view_state_scheme) \<Rightarrow> jsval \<Rightarrow> effect list" where
  "speak s txt =
     (if \<not> voiceEnabled s then []
      else [Cancel,
            Speak \<lparr>utterText = txt, rate = 1, pitch = 1, volume = 1, voice = None\<rparr>])"

definition lccTick :: "view_state \<Rightarrow> response \<Rightarrow> view_state \<times> effect list" where
  "lccTick s r =
     (case fetchJson r of
        Inl e \<Rightarrow> (s, [Log ''Backend not reachable''])
      | Inr data \<Rightarrow>
          (let s1 = s\<lparr>thought := data\<rparr> in
           case getPath data [''pipeline'', ''interpretation'', ''summary''] of
             Inl e \<Rightarrow> (s1, [Log ''Backend not reachable''])
           | Inr summary \<Rightarrow>
               if truthy summary \<and> \<not> strict_eq summary (lastSpoken s)
               then (s1\<lparr>lastSpoken := summary\<rparr>, speak s summary)
               else (s1, [])))"

definition lccEnableVoice :: "view_state \<Rightarrow> view_state \<times> effect list" where
  "lccEnableVoice s = (s\<lparr>voiceEnabled := True\<rparr>, speak s (JStr ''Voice system activated''))"

definition lccCleanup :: "effect list" where
  "lccCleanup = [ClearInterval]"

section \<open>CinematicCognitiveUI\<close>

text \<open>
  The second component of LiveCognitiveCamera.jsx. Its \<open>speak\<close> (lines 139 to 157) takes
  \<open>voices\<close>, what \<open>speechSynthesis.getVoices()\<close> returns at the call, each voice given by
  its name.
\<close>

definition preferredVoice :: "string list \<Rightarrow> string option" where
  "preferredVoice voices =
     (case find (\<lambda>v. sublist ''Google'' v) voices of
        Some v \<Rightarrow> Some v
      | None \<Rightarrow>
          (case find (\<lambda>v. sublist ''Microsoft'' v) voices of
             Some v \<Rightarrow> Some v
           | None \<Rightarrow> (case voices of [] \<Rightarrow> None | v # vs \<Rightarrow> Some v)))"

definition speakCinematic :: "string list \<Rightarrow> ('a view_state_scheme) \<Rightarrow> jsval \<Rightarrow> effect list" where
  "speakCinematic voices s txt =
     (if \<not> voiceEnabled s then []
      else [GetVoices, Cancel,
            Speak \<lparr>utterText = txt, rate = 92 / 100, pitch = 105 / 100, volume = 1,
                   voice = preferredVoice voices\<rparr>])"

text \<open>\<open>objects.map(o => o.label)\<close> on the elements of an array.\<close>

fun mapLabel :: "jsval list \<Rightarrow> js_error + jsval list" where
  "mapLabel [] = Inr []"
| "mapLabel (ob # obs) =
     (case getProp ob ''label'' of
        Inl e \<Rightarrow> Inl e
      | Inr l \<Rightarrow> (case mapLabel obs of Inl e \<Rightarrow> Inl e | Inr ls \<Rightarrow> Inr (l # ls)))"

text \<open>
  \<open>objects.map(...)\<close>: a value that is not an array has no callable \<open>map\<close>, so the call
  throws.
\<close>

definition objectLabels :: "jsval \<Rightarrow> js_error + jsval list" where
  "objectLabels objects = (case objects of JArr obs \<Rightarrow> mapLabel obs | _ \<Rightarrow> Inl TypeError)"

text \<open>\<open>humanizeThought\<close> (lines 160 to 177) and the strings it returns.\<close>

definition phraseLow :: string where
  "phraseLow = ''I can see someone nearby. Everything looks safe.''"

definition phraseMedium :: string where
  "phraseMedium = ''Someone is close. Stay aware.''"

definition phraseHigh :: string where
  "phraseHigh = ''Warning. Someone is very close.''"

definition phraseLaptop :: string where
  "phraseLaptop = ''A laptop is in front of you.''"

definition phraseDefault :: string where
  "phraseDefault = ''I'm observing the surroundings.''"

definition humanizeThought :: "jsval \<Rightarrow> js_error + string" where
  "humanizeThought th =
     (case getPath th [''pipeline'', ''perception'', ''objects''] of
        Inl e \<Rightarrow> Inl e
      | Inr objects \<Rightarrow>
          (case getPath th [''pipeline'', ''risk'', ''level''] of
             Inl e \<Rightarrow> Inl e
           | Inr risk \<Rightarrow>
               (case objectLabels objects of
                  Inl e \<Rightarrow> Inl e
                | Inr labels \<Rightarrow>
                    (let rest = (if JStr ''laptop'' \<in> set labels then phraseLaptop
                                 else phraseDefault)
                     in Inr (if JStr ''person'' \<in> set labels
                             then (if strict_eq risk (JStr ''LOW'') then phraseLow
                                   else if strict_eq risk (JStr ''MEDIUM'') then phraseMedium
                                   else if strict_eq risk (JStr ''HIGH'') then phraseHigh
                                   else rest)
                             else rest)))))"

text \<open>
  The callback of the polling timer (lines 180 to 199), the \<open>onClick\<close> of the Enable Voice
  button (lines 418 to 421) and the cleanup of the polling effect (line 201).
  \<open>prev.slice(0, 6)\<close> is \<open>take 6\<close>.
\<close>

definition cinematicTick ::
  "string list \<Rightarrow> cinematic_state \<Rightarrow> response \<Rightarrow> cinematic_state \<times> effect list" where
  "cinematicTick voices s r =
     (case fetchJson r of
        Inl e \<Rightarrow> (s, [])
      | Inr data \<Rightarrow>
          (let s1 = s\<lparr>thought := data, loading := False,
                      history := data # take 6 (history s)\<rparr> in
           case humanizeThought data of
             Inl e \<Rightarrow> (s1, [])
           | Inr humanSpeech \<Rightarrow>
               if truthy (JStr humanSpeech) \<and> \<not> strict_eq (JStr humanSpeech) (lastSpoken s)
               then (s1\<lparr>lastSpoken := JStr humanSpeech\<rparr>,
                     speakCinematic voices s (JStr humanSpeech))
               else (s1, [])))"

definition cinematicEnableVoice ::
  "string list \<Rightarrow> cinematic_state \<Rightarrow> cinematic_state \<times> effect list" where
  "cinematicEnableVoice voices s =
     (s\<lparr>voiceEnabled := True\<rparr>, speakCinematic voices s (JStr ''Cognitive voice online''))"

definition cinematicCleanup :: "effect list" where
  "cinematicCleanup = [ClearInterval]"

section \<open>CognitiveAISystem\<close>

text \<open>
  \<open>speakWithTone\<close> (CognitiveAISystem.jsx, lines 465 to 485). \<open>tone\<close> is never
  \<open>undefined\<close> at the two call sites, so the parameter default \<open>"calm"\<close> is not modelled
  apart; it would take the last branch as well.
\<close>

definition speakWithTone :: "('a view_state_scheme) \<Rightarrow> jsval \<Rightarrow> jsval \<Rightarrow> effect list" where
  "speakWithTone s txt tone =
     (if \<not> voiceEnabled s then []
      else [Cancel,
            Speak (if strict_eq tone (JStr ''urgent'')
                   then \<lparr>utterText = txt, rate = 11 / 10, pitch = 8 / 10, volume = 1,
                         voice = None\<rparr>
                   else if strict_eq tone (JStr ''curious'')
                   then \<lparr>utterText = txt, rate = 1, pitch = 12 / 10, volume = 1, voice = None\<rparr>
                   else \<lparr>utterText = txt, rate = 95 / 100, pitch = 105 / 100, volume = 1,
                         voice = None\<rparr>)])"

text \<open>\<open>data.meta?.tone || "calm"\<close>, for a \<open>data\<close> that is neither \<open>null\<close> nor \<open>undefined\<close>.\<close>

definition toneOf :: "jsval \<Rightarrow> js_error + jsval" where
  "toneOf data =
     (case getProp data ''meta'' of
        Inl e \<Rightarrow> Inl e
      | Inr m \<Rightarrow>
          (let t = (case getProp m ''tone'' of Inl e \<Rightarrow> Undefined | Inr v \<Rightarrow> v)
           in Inr (if truthy t then t else JStr ''calm'')))"

text \<open>
  The callback of the polling timer (lines 489 to 506), the \<open>onClick\<close> of the Enable Voice
  button (lines 637 to 640) and the cleanup of the polling effect (lines 508 to 511).
\<close>

definition casTick :: "view_state \<Rightarrow> response \<Rightarrow> view_state \<times> effect list" where
  "casTick s r =
     (case fetchJson r of
        Inl e \<Rightarrow> (s, [Log ''Backend not reachable''])
      | Inr data \<Rightarrow>
          (let s1 = s\<lparr>thought := data\<rparr> in
           case getPath data [''pipeline'', ''interpretation'', ''summary''] of
             Inl e \<Rightarrow> (s1, [Log ''Backend not reachable''])
           | Inr summary \<Rightarrow>
               (case toneOf data of
                  Inl e \<Rightarrow> (s1, [Log ''Backend not reachable''])
                | Inr tone \<Rightarrow>
                    if truthy summary \<and> \<not> strict_eq summary (lastSpoken s) \<and> voiceEnabled s
                    then (s1\<lparr>lastSpoken := summary\<rparr>, speakWithTone s summary tone)
                    else (s1, []))))"

definition casEnableVoice :: "view_state \<Rightarrow> view_state \<times> effect list" where
  "casEnableVoice s =
     (s\<lparr>voiceEnabled := True\<rparr>,
      speakWithTone s (JStr ''Voice system activated'') (JStr ''curious''))"

definition casCleanup :: "effect list" where
  "casCleanup = [ClearInterval, Cancel]"

section \<open>Callbacks of an earlier render\<close>



section \<open>Re-run of the polling effect\<close>

text \<open>
  The polling effect of each component lists \<open>voiceEnabled\<close> (or the narration function
  memoised on it) and \<open>lastSpoken\<close> among its dependencies. When a commit changes one of
  them, the cleanup of the previous run is called and the timer is set up anew.
\<close>

definition effectRerun :: "bool \<Rightarrow> effect list \<Rightarrow> effect list" where
  "effectRerun changed cleanup = (if changed then cleanup @ [SetInterval] else [])"

text \<open>
  A click on the Enable Voice button as a whole: the \<open>onClick\<close> handler, then the
  re-render it causes. The handler leaves \<open>lastSpoken\<close> as it is, so the dependencies
  change exactly when the flag does (setting a flag that is already true changes nothing).
\<close>

definition lccClickEnableVoice :: "view_state \<Rightarrow> view_state \<times> effect list" where
  "lccClickEnableVoice s =
     (case lccEnableVoice s of
        (s1, es) \<Rightarrow> (s1, es @ effectRerun (voiceEnabled s1 \<noteq> voiceEnabled s) lccCleanup))"

definition cinematicClickEnableVoice ::
  "string list \<Rightarrow> cinematic_state \<Rightarrow> cinematic_state \<times> effect list" where
  "cinematicClickEnableVoice voices s =
     (case cinematicEnableVoice voices s of
        (s1, es) \<Rightarrow>
          (s1, es @ effectRerun (voiceEnabled s1 \<noteq> voiceEnabled s) cinematicCleanup))"

definition casClickEnableVoice :: "view_state \<Rightarrow> view_state \<times> effect list" where
  "casClickEnableVoice s =
     (case casEnableVoice s of
        (s1, es) \<Rightarrow> (s1, es @ effectRerun (voiceEnabled s1 \<noteq> voiceEnabled s) casCleanup))"

section \<open>Sequences of events\<close>

text \<open>
  \<open>run\<close> handles events one at a time, each by the callback of the current render: it
  is the course of a component in which nothing else is handled between a tick and its
  response.
\<close>

fun run :: "('s \<Rightarrow> 'a \<Rightarrow> 's \<times> effect list) \<Rightarrow> 's \<Rightarrow> 'a list \<Rightarrow> 's \<times> effect list" where
  "run f s [] = (s, [])"
| "run f s (a # as) =
     (case f s a of (s1, es1) \<Rightarrow> (case run f s1 as of (s2, es2) \<Rightarrow> (s2, es1 @ es2)))"


section \<open>Well-formed Thoughts\<close>

text \<open>
  A body of the shape the endpoint is expected to return: a \<open>pipeline\<close> object with
  \<open>perception.objects\<close> (one object with a \<open>label\<close> per detected entity),
  \<open>interpretation.summary\<close>, \<open>uncertainty.overall\<close> and \<open>risk.level\<close>.
\<close>

definition mkThought :: "string \<Rightarrow> rat \<Rightarrow> string \<Rightarrow> string list \<Rightarrow> jsval" where
  "mkThought summary overall level labels =
     JObj [(''pipeline'',
            JObj [(''perception'',
                   JObj [(''objects'', JArr (map (\<lambda>l. JObj [(''label'', JStr l)]) labels))]),
                  (''interpretation'', JObj [(''summary'', JStr summary)]),
                  (''uncertainty'', JObj [(''overall'', JNum overall)]),
                  (''risk'', JObj [(''level'', JStr level)])])]"

definition okResponse :: "jsval \<Rightarrow> response" where
  "okResponse data = HttpResponse 200 (Some data)"

section \<open>Notions used to state the properties\<close>

text \<open>The summary a tick of \<open>LiveCognitiveCamera\<close> or \<open>CognitiveAISystem\<close> derives.\<close>

definition summaryOf :: "response \<Rightarrow> js_error + jsval" where
  "summaryOf r =
     (case fetchJson r of
        Inl e \<Rightarrow> Inl e
      | Inr data \<Rightarrow> getPath data [''pipeline'', ''interpretation'', ''summary''])"

text \<open>The text a tick of \<open>CinematicCognitiveUI\<close> derives.\<close>

definition humanSpeechOf :: "response \<Rightarrow> js_error + string" where
  "humanSpeechOf r = (case fetchJson r of Inl e \<Rightarrow> Inl e | Inr data \<Rightarrow> humanizeThought data)"


text \<open>A call of one of the three narration functions, with the state its closure reads.\<close>

datatype narration =
    LccSpeak view_state jsval
  | CasSpeak view_state jsval jsval
  | CinematicSpeak "string list" cinematic_state jsval

fun narrate :: "narration \<Rightarrow> effect list" where
  "narrate (LccSpeak s txt) = speak s txt"
| "narrate (CasSpeak s txt tone) = speakWithTone s txt tone"
| "narrate (CinematicSpeak voices c txt) = speakCinematic voices c txt"

text \<open>The calls made by the components among the inputs of the engine.\<close>

fun calls :: "engine_input list \<Rightarrow> effect list" where
  "calls [] = []"
| "calls (Call e # xs) = e # calls xs"
| "calls (UtteranceEnd # xs) = calls xs"

text \<open>
  Every \<open>Speak\<close> of the list comes directly after a \<open>Cancel\<close>; the flag tells whether
  the call made just before the list was a \<open>Cancel\<close>.
\<close>

fun afterCancel :: "bool \<Rightarrow> effect list \<Rightarrow> bool" where
  "afterCancel b [] = True"
| "afterCancel b (e # es) =
     (case e of
        Speak u \<Rightarrow> b \<and> afterCancel False es
      | Cancel \<Rightarrow> afterCancel True es
      | _ \<Rightarrow> afterCancel False es)"

definition cancelFirst :: "effect list \<Rightarrow> bool" where
  "cancelFirst es = afterCancel False es"

section \<open>Runs\<close>

lemma run_Cons_fst: "fst (run f s (a # as)) = fst (run f (fst (f s a)) as)"
  by (cases "f s a"; cases "run f (fst (f s a)) as") simp

lemma run_Cons_snd: "snd (run f s (a # as)) = snd (f s a) @ snd (run f (fst (f s a)) as)"
  by (cases "f s a"; cases "run f (fst (f s a)) as") simp

lemma run_effects:
  assumes step: "\<And>s a. P s \<Longrightarrow> P (fst (f s a)) \<and> list_all Q (snd (f s a))" and init: "P s"
  shows "list_all Q (snd (run f s as))"
  using init
proof (induction as arbitrary: s)
  case Nil
  then show ?case by simp
next
  case (Cons a as)
  have h: "P (fst (f s a)) \<and> list_all Q (snd (f s a))" using step Cons.prems by blast
  then have "list_all Q (snd (run f (fst (f s a)) as))" using Cons.IH by blast
  with h show ?case by (simp only: run_Cons_snd list_all_append)
qed

section \<open>Narration while disabled\<close>

lemma lccTick_voiceEnabled: "voiceEnabled (fst (lccTick s r)) = voiceEnabled s"
  by (simp add: lccTick_def Let_def split: sum.splits)

lemma casTick_voiceEnabled: "voiceEnabled (fst (casTick s r)) = voiceEnabled s"
  by (simp add: casTick_def Let_def split: sum.splits)

lemma cinematicTick_voiceEnabled:
  "voiceEnabled (fst (cinematicTick voices c r)) = voiceEnabled c"
  by (simp add: cinematicTick_def Let_def split: sum.splits)

lemma lccTick_disabled:
  "\<not> voiceEnabled s \<Longrightarrow> list_all (\<lambda>e. \<not> isSynthCall e) (snd (lccTick s r))"
  by (simp add: lccTick_def Let_def speak_def isSynthCall_def split: sum.splits)

lemma casTick_disabled:
  "\<not> voiceEnabled s \<Longrightarrow> list_all (\<lambda>e. \<not> isSynthCall e) (snd (casTick s r))"
  by (simp add: casTick_def Let_def speakWithTone_def isSynthCall_def split: sum.splits)

lemma cinematicTick_disabled:
  "\<not> voiceEnabled c \<Longrightarrow> list_all (\<lambda>e. \<not> isSynthCall e) (snd (cinematicTick voices c r))"
  by (simp add: cinematicTick_def Let_def speakCinematic_def isSynthCall_def split: sum.splits)

text \<open>
  C5. While the voice-enabled flag is false, each of the three narration functions returns
  at once, for every text (and tone, and list of voices): it calls neither \<open>getVoices\<close>,
  nor \<open>cancel\<close>, nor \<open>speak\<close>. Poll ticks do not change the flag, so however many
  responses are processed, with whatever summaries, no speech-synthesis call is made.
\<close>

theorem disabled_narration_makes_no_synthesis_call:
  assumes "\<not> voiceEnabled s" and "\<not> voiceEnabled c"
  shows "speak s tx = [] \<and> speakWithTone s tx tone = [] \<and> speakCinematic voices c tx = []
       \<and> list_all (\<lambda>e. \<not> isSynthCall e) (snd (run lccTick s rs))
       \<and> list_all (\<lambda>e. \<not> isSynthCall e) (snd (run casTick s rs))
       \<and> list_all (\<lambda>e. \<not> isSynthCall e) (snd (run (cinematicTick voices) c rs))"
proof -
  have a: "list_all (\<lambda>e. \<not> isSynthCall e) (snd (run lccTick s rs))"
    by (rule run_effects [where P = "\<lambda>s. \<not> voiceEnabled s"])
       (simp_all add: lccTick_voiceEnabled lccTick_disabled assms)
  have b: "list_all (\<lambda>e. \<not> isSynthCall e) (snd (run casTick s rs))"
    by (rule run_effects [where P = "\<lambda>s. \<not> voiceEnabled s"])
       (simp_all add: casTick_voiceEnabled casTick_disabled assms)
  have c: "list_all (\<lambda>e. \<not> isSynthCall e) (snd (run (cinematicTick voices) c rs))"
    by (rule run_effects [where P = "\<lambda>s. \<not> voiceEnabled s"])
       (simp_all add: cinematicTick_voiceEnabled cinematicTick_disabled assms)
  show ?thesis
    using assms a b c by (simp add: speak_def speakWithTone_def speakCinematic_def)
qed

theorem disabled_narration_makes_no_synthesis_call_witness:
  "\<not> voiceEnabled initialView \<and> \<not> voiceEnabled initialCinematic
   \<and> speak initialView (JStr ''A'') = []
   \<and> speakWithTone initialView (JStr ''A'') (JStr ''urgent'') = []
   \<and> speakCinematic [''Google US English''] initialCinematic (JStr ''A'') = []
   \<and> list_all (\<lambda>e. \<not> isSynthCall e)
        (snd (run lccTick initialView
           [okResponse (mkThought ''A'' 0 ''LOW'' []), okResponse (mkThought ''B'' 0 ''LOW'' [])]))
   \<and> list_all (\<lambda>e. \<not> isSynthCall e)
        (snd (run casTick initialView
           [okResponse (mkThought ''A'' 0 ''LOW'' []), okResponse (mkThought ''B'' 0 ''LOW'' [])]))
   \<and> list_all (\<lambda>e. \<not> isSynthCall e)
        (snd (run (cinematicTick [''Google US English'']) initialCinematic
           [okResponse (mkThought ''A'' 0 ''LOW'' []), okResponse (mkThought ''B'' 0 ''LOW'' [])]))"
proof -
  have h1: "\<not> voiceEnabled initialView" by (simp add: initialView_def)
  have h2: "\<not> voiceEnabled initialCinematic" by (simp add: initialCinematic_def)
  show ?thesis
    using h1 h2
      disabled_narration_makes_no_synthesis_call [OF h1 h2,
        where tx = "JStr ''A''" and tone = "JStr ''urgent''"
          and voices = "[''Google US English'']"
          and rs = "[okResponse (mkThought ''A'' 0 ''LOW'' []),
                     okResponse (mkThought ''B'' 0 ''LOW'' [])]"]
    by blast
qed

section \<open>The Enable Voice button\<close>

text \<open>
  C10 (amended). The click handler requests \<open>voiceEnabled := true\<close> and then calls the
  narration function of the render it belongs to, whose flag is still false on the first
  click: the handler leaves the flag set and makes no speech-synthesis call, so the
  activation phrase is not spoken. The flag change makes the polling effect run again. In
  \<open>LiveCognitiveCamera\<close> and \<open>CinematicCognitiveUI\<close> its cleanup only clears the
  interval, so the click produces no speech-synthesis call at all; in
  \<open>CognitiveAISystem\<close> the cleanup also calls \<open>speechSynthesis.cancel()\<close>, which is the
  only speech-synthesis call the click produces there.
\<close>

theorem enable_voice_click_speaks_nothing:
  assumes "\<not> voiceEnabled s" and "\<not> voiceEnabled c"
  shows "lccEnableVoice s = (s\<lparr>voiceEnabled := True\<rparr>, [])
       \<and> casEnableVoice s = (s\<lparr>voiceEnabled := True\<rparr>, [])
       \<and> cinematicEnableVoice voices c = (c\<lparr>voiceEnabled := True\<rparr>, [])
       \<and> lccClickEnableVoice s = (s\<lparr>voiceEnabled := True\<rparr>, [ClearInterval, SetInterval])
       \<and> cinematicClickEnableVoice voices c
           = (c\<lparr>voiceEnabled := True\<rparr>, [ClearInterval, SetInterval])
       \<and> casClickEnableVoice s
           = (s\<lparr>voiceEnabled := True\<rparr>, [ClearInterval, Cancel, SetInterval])"
  using assms
  by (simp add: lccEnableVoice_def casEnableVoice_def cinematicEnableVoice_def
      lccClickEnableVoice_def casClickEnableVoice_def cinematicClickEnableVoice_def
      effectRerun_def lccCleanup_def casCleanup_def cinematicCleanup_def
      speak_def speakWithTone_def speakCinematic_def)

theorem enable_voice_click_speaks_nothing_witness:
  "\<not> voiceEnabled initialView \<and> \<not> voiceEnabled initialCinematic
   \<and> lccEnableVoice initialView = (initialView\<lparr>voiceEnabled := True\<rparr>, [])
   \<and> casEnableVoice initialView = (initialView\<lparr>voiceEnabled := True\<rparr>, [])
   \<and> cinematicEnableVoice [] initialCinematic = (initialCinematic\<lparr>voiceEnabled := True\<rparr>, [])
   \<and> lccClickEnableVoice initialView
       = (initialView\<lparr>voiceEnabled := True\<rparr>, [ClearInterval, SetInterval])
   \<and> cinematicClickEnableVoice [] initialCinematic
       = (initialCinematic\<lparr>voiceEnabled := True\<rparr>, [ClearInterval, SetInterval])
   \<and> casClickEnableVoice initialView
       = (initialView\<lparr>voiceEnabled := True\<rparr>, [ClearInterval, Cancel, SetInterval])"
proof -
  have h1: "\<not> voiceEnabled initialView" by (simp add: initialView_def)
  have h2: "\<not> voiceEnabled initialCinematic" by (simp add: initialCinematic_def)
  show ?thesis
    using h1 h2 enable_voice_click_speaks_nothing [OF h1 h2, where voices = "[]"]
    by blast
qed

text \<open>
  The claim as stated, zero speech-synthesis calls on the first click, fails in
  \<open>CognitiveAISystem\<close>: the cleanup of the polling effect, re-run by the flag change,
  calls \<open>cancel\<close>.
\<close>

theorem first_click_cancels_in_cognitive_ai_system:
  "\<not> voiceEnabled initialView
   \<and> filter isSynthCall (snd (casClickEnableVoice initialView)) = [Cancel]"
  by (simp add: initialView_def casClickEnableVoice_def casEnableVoice_def effectRerun_def
      casCleanup_def speakWithTone_def isSynthCall_def)

section \<open>The displayed Thought\<close>

lemma run_snoc_fst: "fst (run f s (as @ [a])) = fst (f (fst (run f s as)) a)"
  by (induction as arbitrary: s) (simp_all add: run_Cons_fst del: run.simps(2))

lemma lccTick_thought: "fetchJson r = Inr data \<Longrightarrow> thought (fst (lccTick s r)) = data"
  by (simp add: lccTick_def Let_def split: sum.splits)

lemma casTick_thought: "fetchJson r = Inr data \<Longrightarrow> thought (fst (casTick s r)) = data"
  by (simp add: casTick_def Let_def split: sum.splits)

lemma cinematicTick_thought:
  "fetchJson r = Inr data \<Longrightarrow> thought (fst (cinematicTick voices c r)) = data"
  by (simp add: cinematicTick_def Let_def split: sum.splits)

text \<open>
  C7. Whenever a body decodes, the tick sets the displayed Thought to the decoded value
  itself, whatever was displayed before and whatever the HTTP status: nothing of the
  previous Thought is kept or merged. After any sequence of ticks ending with such a
  response, the displayed Thought is that last decoded value. This holds in all three
  components.
\<close>

theorem received_thought_replaces_display:
  "thought (fst (lccTick s (HttpResponse st (Some data)))) = data
   \<and> thought (fst (casTick s (HttpResponse st (Some data)))) = data
   \<and> thought (fst (cinematicTick voices c (HttpResponse st (Some data)))) = data
   \<and> thought (fst (run lccTick s (rs @ [HttpResponse st (Some data)]))) = data
   \<and> thought (fst (run casTick s (rs @ [HttpResponse st (Some data)]))) = data
   \<and> thought (fst (run (cinematicTick voices) c (rs @ [HttpResponse st (Some data)]))) = data"
  by (simp add: run_snoc_fst lccTick_thought casTick_thought cinematicTick_thought)

section \<open>The history buffer\<close>

lemma cinematicTick_history:
  "history (fst (cinematicTick voices c r)) =
     (case fetchJson r of Inl e \<Rightarrow> history c | Inr data \<Rightarrow> data # take 6 (history c))"
  by (simp add: cinematicTick_def Let_def split: sum.splits)

lemma cinematicEnableVoice_history: "history (fst (cinematicEnableVoice voices c)) = history c"
  by (simp add: cinematicEnableVoice_def)

lemma cinematicTick_history_length:
  "length (history c) \<le> 7 \<Longrightarrow> length (history (fst (cinematicTick voices c r))) \<le> 7"
  by (simp add: cinematicTick_history split: sum.splits)

lemma cinematic_run_history_length:
  "length (history c) \<le> 7 \<Longrightarrow> length (history (fst (run (cinematicTick voices) c rs))) \<le> 7"
proof (induction rs arbitrary: c)
  case Nil
  then show ?case by simp
next
  case (Cons r rs)
  have "length (history (fst (cinematicTick voices c r))) \<le> 7"
    using Cons.prems by (rule cinematicTick_history_length)
  then have "length (history (fst (run (cinematicTick voices) (fst (cinematicTick voices c r)) rs)))
               \<le> 7"
    by (rule Cons.IH)
  then show ?case by (simp only: run_Cons_fst)
qed

text \<open>
  C3. The claim is that the history holds at most 7 Thought records, newest first, that
  each successful poll prepends its Thought, and that nothing but the eviction of the
  oldest entry of a full buffer removes an entry. The bound holds (the two lemmas above).
  But \<open>setHistory\<close> is called before \<open>humanizeThought(data)\<close> reads the fields of the
  body: a poll that fails on a body without the pipeline fields, such as a 404 response
  with the body \<open>{"detail": "Not Found"}\<close>, puts that body in front of the history, and
  from a full buffer it evicts the oldest Thought.
\<close>

theorem failed_poll_enters_history_and_evicts:
  "humanSpeechOf (HttpResponse 404 (Some (JObj [(''detail'', JStr ''Not Found'')])))
     = Inl TypeError
   \<and> history (fst (cinematicTick []
        \<lparr>thought = mkThought ''g'' 0 ''LOW'' [], voiceEnabled = False,
          lastSpoken = JStr phraseDefault, loading = False,
          history = [mkThought ''g'' 0 ''LOW'' [], mkThought ''f'' 0 ''LOW'' [],
                     mkThought ''e'' 0 ''LOW'' [], mkThought ''d'' 0 ''LOW'' [],
                     mkThought ''c'' 0 ''LOW'' [], mkThought ''b'' 0 ''LOW'' [],
                     mkThought ''a'' 0 ''LOW'' []]\<rparr>
        (HttpResponse 404 (Some (JObj [(''detail'', JStr ''Not Found'')])))))
     = [JObj [(''detail'', JStr ''Not Found'')],
        mkThought ''g'' 0 ''LOW'' [], mkThought ''f'' 0 ''LOW'' [],
        mkThought ''e'' 0 ''LOW'' [], mkThought ''d'' 0 ''LOW'' [],
        mkThought ''c'' 0 ''LOW'' [], mkThought ''b'' 0 ''LOW'' []]"
  by (simp add: humanSpeechOf_def humanizeThought_def cinematicTick_history)

section \<open>Cancel before speak\<close>

lemma afterCancel_mono: "afterCancel False es \<Longrightarrow> afterCancel b es"
  by (cases es) (auto split: effect.splits)

lemma afterCancel_append:
  "afterCancel b xs \<Longrightarrow> afterCancel False ys \<Longrightarrow> afterCancel b (xs @ ys)"
  by (induction xs arbitrary: b) (auto split: effect.splits intro: afterCancel_mono)

lemma afterCancel_prefix: "afterCancel b es \<Longrightarrow> prefix p es \<Longrightarrow> afterCancel b p"
  by (induction es arbitrary: b p) (auto simp: prefix_Cons split: effect.splits)

lemma calls_prefix: "prefix ys xs \<Longrightarrow> prefix (calls ys) (calls xs)"
proof (induction ys arbitrary: xs)
  case Nil
  then show ?case by simp
next
  case (Cons y ys)
  from Cons.prems obtain xs' where xs: "xs = y # xs'" and p: "prefix ys xs'"
    by (cases xs) auto
  from Cons.IH [OF p] xs show ?case
    by (cases y) simp_all
qed

lemma engine_at_most_one:
  "afterCancel b (calls xs) \<Longrightarrow> length q \<le> 1 \<Longrightarrow> (b \<longrightarrow> q = []) \<Longrightarrow>
   length (foldl engine q xs) \<le> 1"
proof (induction xs arbitrary: b q)
  case Nil
  then show ?case by simp
next
  case (Cons x xs)
  show ?case
  proof (cases x)
    case UtteranceEnd
    have "length (foldl engine (tl q) xs) \<le> 1"
      using Cons.prems UtteranceEnd by (intro Cons.IH [of b]) auto
    with UtteranceEnd show ?thesis by simp
  next
    case (Call e)
    show ?thesis
    proof (cases e)
      case Cancel
      have "length (foldl engine [] xs) \<le> 1"
        using Cons.prems Call Cancel by (intro Cons.IH [of True]) auto
      with Call Cancel show ?thesis by simp
    next
      case (Speak u)
      have q: "q = []" and rest: "afterCancel False (calls xs)"
        using Cons.prems Call Speak by auto
      have "length (foldl engine [u] xs) \<le> 1"
        using rest by (intro Cons.IH [of False]) auto
      with Call Speak q show ?thesis by simp
    next
      case GetVoices
      have "length (foldl engine q xs) \<le> 1"
        using Cons.prems Call GetVoices by (intro Cons.IH [of False]) auto
      with Call GetVoices show ?thesis by simp
    next
      case (Log m)
      have "length (foldl engine q xs) \<le> 1"
        using Cons.prems Call Log by (intro Cons.IH [of False]) auto
      with Call Log show ?thesis by simp
    next
      case ClearInterval
      have "length (foldl engine q xs) \<le> 1"
        using Cons.prems Call ClearInterval by (intro Cons.IH [of False]) auto
      with Call ClearInterval show ?thesis by simp
    next
      case SetInterval
      have "length (foldl engine q xs) \<le> 1"
        using Cons.prems Call SetInterval by (intro Cons.IH [of False]) auto
      with Call SetInterval show ?thesis by simp
    qed
  qed
qed

lemma narrate_shape:
  "narrate n = [] \<or> (\<exists>u. narrate n = [Cancel, Speak u])
   \<or> (\<exists>u. narrate n = [GetVoices, Cancel, Speak u])"
  by (cases n) (simp_all add: speak_def speakWithTone_def speakCinematic_def)

lemma narrate_afterCancel: "afterCancel False (narrate n)"
  using narrate_shape [of n] by auto

lemma narrations_afterCancel: "afterCancel False (concat (map narrate ns))"
  by (induction ns) (simp_all add: afterCancel_append narrate_afterCancel)

text \<open>
  C4. Each call of a narration function either does nothing (voice disabled) or calls
  \<open>cancel\<close> and then, directly after it, \<open>speak\<close> with the new utterance (the cinematic
  one reads the voices first). So in the calls made by any sequence of narration calls every
  \<open>speak\<close> comes directly after a \<open>cancel\<close>, and an engine with at most one utterance in
  flight never has two: this holds after every prefix of the engine's inputs, whenever
  utterances end in between.
\<close>

theorem cancel_precedes_every_speak:
  "(narrate n = [] \<or> (\<exists>u. narrate n = [Cancel, Speak u])
      \<or> (\<exists>u. narrate n = [GetVoices, Cancel, Speak u]))
   \<and> cancelFirst (concat (map narrate ns))
   \<and> (calls xs = concat (map narrate ns) \<and> prefix ys xs \<and> length q \<le> 1
        \<longrightarrow> length (foldl engine q ys) \<le> 1)"
proof -
  have "length (foldl engine q ys) \<le> 1"
    if c: "calls xs = concat (map narrate ns)" and p: "prefix ys xs" and q: "length q \<le> 1"
  proof -
    have "afterCancel False (calls xs)" using c narrations_afterCancel by simp
    then have "afterCancel False (calls ys)"
      using calls_prefix [OF p] by (rule afterCancel_prefix)
    then show ?thesis using q by (rule engine_at_most_one) simp
  qed
  then show ?thesis
    using narrate_shape [of n] narrations_afterCancel [of ns] by (simp add: cancelFirst_def)
qed

theorem cancel_precedes_every_speak_witness:
  "calls [Call Cancel,
          Call (Speak \<lparr>utterText = JStr ''A'', rate = 1, pitch = 1, volume = 1, voice = None\<rparr>),
          UtteranceEnd,
          Call Cancel,
          Call (Speak \<lparr>utterText = JStr ''B'', rate = 11 / 10, pitch = 8 / 10, volume = 1,
                        voice = None\<rparr>)]
     = concat (map narrate
         [LccSpeak (initialView\<lparr>voiceEnabled := True\<rparr>) (JStr ''A''),
          CasSpeak (initialView\<lparr>voiceEnabled := True\<rparr>) (JStr ''B'') (JStr ''urgent'')])
   \<and> length (foldl engine
         [\<lparr>utterText = JStr ''Z'', rate = 1, pitch = 1, volume = 1, voice = None\<rparr>]
         [Call Cancel,
          Call (Speak \<lparr>utterText = JStr ''A'', rate = 1, pitch = 1, volume = 1, voice = None\<rparr>),
          UtteranceEnd,
          Call Cancel]) \<le> 1"
  using cancel_precedes_every_speak
    [where ns = "[LccSpeak (initialView\<lparr>voiceEnabled := True\<rparr>) (JStr ''A''),
                  CasSpeak (initialView\<lparr>voiceEnabled := True\<rparr>) (JStr ''B'') (JStr ''urgent'')]"
       and xs = "[Call Cancel,
          Call (Speak \<lparr>utterText = JStr ''A'', rate = 1, pitch = 1, volume = 1, voice = None\<rparr>),
          UtteranceEnd,
          Call Cancel,
          Call (Speak \<lparr>utterText = JStr ''B'', rate = 11 / 10, pitch = 8 / 10, volume = 1,
                        voice = None\<rparr>)]"
       and ys = "[Call Cancel,
          Call (Speak \<lparr>utterText = JStr ''A'', rate = 1, pitch = 1, volume = 1, voice = None\<rparr>),
          UtteranceEnd,
          Call Cancel]"
       and q = "[\<lparr>utterText = JStr ''Z'', rate = 1, pitch = 1, volume = 1, voice = None\<rparr>]"]
  by (simp add: speak_def speakWithTone_def strict_eq_def initialView_def)

section \<open>Narration of new summaries\<close>








lemma summaryOf_mkThought [simp]:
  "summaryOf (okResponse (mkThought sm ov level labels)) = Inr (JStr sm)"
  by (simp add: summaryOf_def okResponse_def mkThought_def)










section \<open>Summaries received while narration is disabled\<close>









section \<open>The phrases of humanizeThought\<close>

lemma phrases_distinct: "distinct [phraseLow, phraseMedium, phraseHigh, phraseLaptop, phraseDefault]"
  by (simp add: phraseLow_def phraseMedium_def phraseHigh_def phraseLaptop_def phraseDefault_def)

lemma humanizeThought_eval:
  assumes "getPath th [''pipeline'', ''perception'', ''objects''] = Inr objects"
    and "getPath th [''pipeline'', ''risk'', ''level''] = Inr risk"
    and "objectLabels objects = Inr labels"
  shows "humanizeThought th =
     Inr (if JStr ''person'' \<in> set labels \<and> risk = JStr ''LOW'' then phraseLow
          else if JStr ''person'' \<in> set labels \<and> risk = JStr ''MEDIUM'' then phraseMedium
          else if JStr ''person'' \<in> set labels \<and> risk = JStr ''HIGH'' then phraseHigh
          else if JStr ''laptop'' \<in> set labels then phraseLaptop
          else phraseDefault)"
  using assms unfolding humanizeThought_def
  by (simp add: Let_def strict_eq_def split: jsval.splits)

lemma humanizeThought_in_phrases:
  "humanizeThought th = Inr p \<Longrightarrow>
   p \<in> {phraseLow, phraseMedium, phraseHigh, phraseLaptop, phraseDefault}"
  unfolding humanizeThought_def
  by (auto simp: Let_def split: sum.splits if_splits)

lemma mapLabel_labels: "mapLabel (map (\<lambda>l. JObj [(''label'', JStr l)]) labels) = Inr (map JStr labels)"
  by (induction labels) simp_all

lemma mkThought_parts:
  "getPath (mkThought sm ov level labels) [''pipeline'', ''perception'', ''objects'']
     = Inr (JArr (map (\<lambda>l. JObj [(''label'', JStr l)]) labels))"
  "getPath (mkThought sm ov level labels) [''pipeline'', ''risk'', ''level''] = Inr (JStr level)"
  "objectLabels (JArr (map (\<lambda>l. JObj [(''label'', JStr l)]) labels)) = Inr (map JStr labels)"
  by (simp_all add: mkThought_def objectLabels_def mapLabel_labels)

lemma humanizeThought_mkThought:
  "humanizeThought (mkThought sm ov level labels) =
     Inr (if ''person'' \<in> set labels \<and> level = ''LOW'' then phraseLow
          else if ''person'' \<in> set labels \<and> level = ''MEDIUM'' then phraseMedium
          else if ''person'' \<in> set labels \<and> level = ''HIGH'' then phraseHigh
          else if ''laptop'' \<in> set labels then phraseLaptop
          else phraseDefault)"
  by (simp add: humanizeThought_eval [OF mkThought_parts] image_iff)

lemma humanizeThought_range:
  "{p. \<exists>th. humanizeThought th = Inr p}
     = {phraseLow, phraseMedium, phraseHigh, phraseLaptop, phraseDefault}"
proof
  show "{p. \<exists>th. humanizeThought th = Inr p}
          \<subseteq> {phraseLow, phraseMedium, phraseHigh, phraseLaptop, phraseDefault}"
    using humanizeThought_in_phrases by blast
next
  have "humanizeThought (mkThought [] 0 ''LOW'' [''person'']) = Inr phraseLow"
    "humanizeThought (mkThought [] 0 ''MEDIUM'' [''person'']) = Inr phraseMedium"
    "humanizeThought (mkThought [] 0 ''HIGH'' [''person'']) = Inr phraseHigh"
    "humanizeThought (mkThought [] 0 ''LOW'' [''laptop'']) = Inr phraseLaptop"
    "humanizeThought (mkThought [] 0 ''LOW'' []) = Inr phraseDefault"
    by (simp_all add: humanizeThought_mkThought)
  then show "{phraseLow, phraseMedium, phraseHigh, phraseLaptop, phraseDefault}
          \<subseteq> {p. \<exists>th. humanizeThought th = Inr p}"
    by blast
qed

lemma humanizeThought_card: "card {p. \<exists>th. humanizeThought th = Inr p} = 5"
  using phrases_distinct by (simp add: humanizeThought_range)


text \<open>
  C9 (amended). For every Thought that has a \<open>perception.objects\<close> array of objects and a
  \<open>risk.level\<close>, \<open>humanizeThought\<close> returns one of exactly five fixed phrases. When the
  labels include "person", the levels "LOW", "MEDIUM" and "HIGH" each give their own phrase,
  also when "laptop" is among the labels; with any other level the result is the laptop
  phrase if "laptop" is among the labels, and the default phrase otherwise.
\<close>

theorem humanizeThought_returns_one_of_five_phrases:
  assumes "getPath th [''pipeline'', ''perception'', ''objects''] = Inr objects"
    and "getPath th [''pipeline'', ''risk'', ''level''] = Inr risk"
    and "objectLabels objects = Inr labels"
  shows "(\<exists>p \<in> {phraseLow, phraseMedium, phraseHigh, phraseLaptop, phraseDefault}.
            humanizeThought th = Inr p)
       \<and> card {p. \<exists>th'. humanizeThought th' = Inr p} = 5
       \<and> (JStr ''person'' \<in> set labels \<and> risk = JStr ''LOW'' \<longrightarrow>
            humanizeThought th = Inr phraseLow)
       \<and> (JStr ''person'' \<in> set labels \<and> risk = JStr ''MEDIUM'' \<longrightarrow>
            humanizeThought th = Inr phraseMedium)
       \<and> (JStr ''person'' \<in> set labels \<and> risk = JStr ''HIGH'' \<longrightarrow>
            humanizeThought th = Inr phraseHigh)
       \<and> (JStr ''person'' \<in> set labels
            \<and> risk \<notin> {JStr ''LOW'', JStr ''MEDIUM'', JStr ''HIGH''} \<longrightarrow>
            humanizeThought th
              = Inr (if JStr ''laptop'' \<in> set labels then phraseLaptop else phraseDefault))"
  by (simp add: humanizeThought_eval [OF assms] humanizeThought_card)

theorem humanizeThought_returns_one_of_five_phrases_witness:
  "humanizeThought (mkThought ''x'' (1 / 2) ''LOW'' [''laptop'', ''person'']) = Inr phraseLow
   \<and> humanizeThought (mkThought ''x'' (1 / 2) ''CRITICAL'' [''laptop'', ''person''])
       = Inr phraseLaptop
   \<and> humanizeThought (mkThought ''x'' (1 / 2) ''SAFE'' [''person'']) = Inr phraseDefault"
proof -
  note low = mkThought_parts(1,2) [of "''x''" "1 / 2" "''LOW''" "[''laptop'', ''person'']"]
    mkThought_parts(3) [of "[''laptop'', ''person'']"]
  note critical =
    mkThought_parts(1,2) [of "''x''" "1 / 2" "''CRITICAL''" "[''laptop'', ''person'']"]
    mkThought_parts(3) [of "[''laptop'', ''person'']"]
  note safe = mkThought_parts(1,2) [of "''x''" "1 / 2" "''SAFE''" "[''person'']"]
    mkThought_parts(3) [of "[''person'']"]
  show ?thesis
    using humanizeThought_returns_one_of_five_phrases [OF low]
      humanizeThought_returns_one_of_five_phrases [OF critical]
      humanizeThought_returns_one_of_five_phrases [OF safe]
    by simp
qed

text \<open>
  The claim as stated counts six phrases; the texts \<open>humanizeThought\<close> can return are
  five.
\<close>

theorem humanizeThought_phrases_are_not_six:
  "\<not> (\<exists>S. card S = 6 \<and> (\<forall>p. p \<in> S \<longleftrightarrow> (\<exists>th. humanizeThought th = Inr p)))"
proof
  assume "\<exists>S. card S = 6 \<and> (\<forall>p. p \<in> S \<longleftrightarrow> (\<exists>th. humanizeThought th = Inr p))"
  then obtain S where c: "card S = 6" and "\<forall>p. p \<in> S \<longleftrightarrow> (\<exists>th. humanizeThought th = Inr p)"
    by blast
  then have "S = {p. \<exists>th. humanizeThought th = Inr p}" by blast
  with c show False by (simp add: humanizeThought_card)
qed

section \<open>Failed polls\<close>

text \<open>
  A tick whose fetch rejects or whose body does not decode leaves the state as it was. A
  tick whose body decodes but lacks the fields read afterwards speaks nothing and keeps
  the last spoken text.
\<close>

lemma poll_failure_before_decoding_keeps_state:
  "fetchJson r = Inl e \<Longrightarrow>
     lccTick s r = (s, [Log ''Backend not reachable''])
     \<and> casTick s r = (s, [Log ''Backend not reachable''])
     \<and> cinematicTick voices c r = (c, [])"
  by (simp add: lccTick_def casTick_def cinematicTick_def)

lemma status_is_never_read:
  "lccTick s (HttpResponse st body) = lccTick s (HttpResponse st' body)
   \<and> casTick s (HttpResponse st body) = casTick s (HttpResponse st' body)
   \<and> cinematicTick voices c (HttpResponse st body) = cinematicTick voices c (HttpResponse st' body)"
  by (cases body) (simp_all add: lccTick_def casTick_def cinematicTick_def)

lemma poll_without_summary_is_not_narrated:
  "summaryOf r = Inl e \<Longrightarrow>
     lastSpoken (fst (lccTick s r)) = lastSpoken s
     \<and> list_all (\<lambda>e. \<not> isSynthCall e) (snd (lccTick s r))
     \<and> lastSpoken (fst (casTick s r)) = lastSpoken s
     \<and> list_all (\<lambda>e. \<not> isSynthCall e) (snd (casTick s r))"
  by (auto simp: summaryOf_def lccTick_def casTick_def Let_def isSynthCall_def split: sum.splits)

lemma poll_without_phrase_is_not_narrated:
  "humanSpeechOf r = Inl e \<Longrightarrow>
     lastSpoken (fst (cinematicTick voices c r)) = lastSpoken c
     \<and> snd (cinematicTick voices c r) = []"
  by (auto simp: humanSpeechOf_def cinematicTick_def Let_def split: sum.splits)

text \<open>
  C2. The claim is that a poll that fails for any reason, a non-OK status and a body
  without the pipeline fields included, leaves the displayed Thought, the history and the
  last spoken text as they were. The components call \<open>setThought(data)\<close> (and
  \<open>setHistory\<close>) before they read \<open>data.pipeline\<close>, and never read the status: on a 404
  response with the body \<open>{"detail": "Not Found"}\<close> the read throws and is caught, and by
  then the displayed Thought has been replaced by that body, which in
  \<open>CinematicCognitiveUI\<close> has also been put in front of the history.
\<close>

theorem body_without_pipeline_replaces_display:
  "summaryOf (HttpResponse 404 (Some (JObj [(''detail'', JStr ''Not Found'')]))) = Inl TypeError
   \<and> humanSpeechOf (HttpResponse 404 (Some (JObj [(''detail'', JStr ''Not Found'')])))
       = Inl TypeError
   \<and> lccTick
        \<lparr>thought = mkThought ''A'' (1 / 2) ''LOW'' [''person''], voiceEnabled = True,
          lastSpoken = JStr ''A''\<rparr>
        (HttpResponse 404 (Some (JObj [(''detail'', JStr ''Not Found'')])))
       = (\<lparr>thought = JObj [(''detail'', JStr ''Not Found'')], voiceEnabled = True,
            lastSpoken = JStr ''A''\<rparr>,
          [Log ''Backend not reachable''])
   \<and> casTick
        \<lparr>thought = mkThought ''A'' (1 / 2) ''LOW'' [''person''], voiceEnabled = True,
          lastSpoken = JStr ''A''\<rparr>
        (HttpResponse 404 (Some (JObj [(''detail'', JStr ''Not Found'')])))
       = (\<lparr>thought = JObj [(''detail'', JStr ''Not Found'')], voiceEnabled = True,
            lastSpoken = JStr ''A''\<rparr>,
          [Log ''Backend not reachable''])
   \<and> cinematicTick []
        \<lparr>thought = mkThought ''A'' (1 / 2) ''LOW'' [''person''], voiceEnabled = True,
          lastSpoken = JStr phraseLow, loading = False,
          history = [mkThought ''A'' (1 / 2) ''LOW'' [''person'']]\<rparr>
        (HttpResponse 404 (Some (JObj [(''detail'', JStr ''Not Found'')])))
       = (\<lparr>thought = JObj [(''detail'', JStr ''Not Found'')], voiceEnabled = True,
            lastSpoken = JStr phraseLow, loading = False,
            history = [JObj [(''detail'', JStr ''Not Found'')],
                       mkThought ''A'' (1 / 2) ''LOW'' [''person'']]\<rparr>,
          [])
   \<and> JObj [(''detail'', JStr ''Not Found'')] \<noteq> mkThought ''A'' (1 / 2) ''LOW'' [''person'']"
  by (simp add: summaryOf_def humanSpeechOf_def humanizeThought_def lccTick_def casTick_def
      cinematicTick_def mkThought_def)

section \<open>Teardown\<close>

lemma cleanup_without_cancel_keeps_queue:
  "foldl engine q (map Call lccCleanup) = q \<and> foldl engine q (map Call cinematicCleanup) = q"
  by (simp add: lccCleanup_def cinematicCleanup_def)

lemma casCleanup_empties_queue: "foldl engine q (map Call casCleanup) = []"
  by (simp add: casCleanup_def)

text \<open>
  C6. The claim is that the effect cleanup of every component stops the timer and cancels
  the utterance in progress. The cleanup of \<open>CognitiveAISystem\<close> does both; those of
  \<open>LiveCognitiveCamera\<close> and \<open>CinematicCognitiveUI\<close> only clear the interval, so an
  utterance started by the last tick is still in the engine's queue after the teardown.
\<close>

theorem unmount_leaves_utterance_playing:
  "lccCleanup = [ClearInterval]
   \<and> cinematicCleanup = [ClearInterval]
   \<and> casCleanup = [ClearInterval, Cancel]
   \<and> foldl engine []
        (map Call
          (snd (lccTick (initialView\<lparr>voiceEnabled := True\<rparr>)
                 (okResponse (mkThought ''A'' (1 / 2) ''LOW'' [''person''])))
           @ lccCleanup))
       = [\<lparr>utterText = JStr ''A'', rate = 1, pitch = 1, volume = 1, voice = None\<rparr>]
   \<and> foldl engine []
        (map Call
          (snd (cinematicTick [] (initialCinematic\<lparr>voiceEnabled := True\<rparr>)
                 (okResponse (mkThought ''A'' (1 / 2) ''LOW'' [''person''])))
           @ cinematicCleanup))
       = [\<lparr>utterText = JStr phraseLow, rate = 92 / 100, pitch = 105 / 100, volume = 1,
            voice = None\<rparr>]
   \<and> foldl engine []
        (map Call
          (snd (casTick (initialView\<lparr>voiceEnabled := True\<rparr>)
                 (okResponse (mkThought ''A'' (1 / 2) ''LOW'' [''person''])))
           @ casCleanup))
       = []"
proof -
  have lcc: "snd (lccTick (initialView\<lparr>voiceEnabled := True\<rparr>)
                 (okResponse (mkThought ''A'' (1 / 2) ''LOW'' [''person''])))
       = [Cancel, Speak \<lparr>utterText = JStr ''A'', rate = 1, pitch = 1, volume = 1, voice = None\<rparr>]"
    by (simp add: lccTick_def okResponse_def initialView_def speak_def strict_eq_def
        mkThought_def)
  have cas: "snd (casTick (initialView\<lparr>voiceEnabled := True\<rparr>)
                 (okResponse (mkThought ''A'' (1 / 2) ''LOW'' [''person''])))
       = [Cancel, Speak \<lparr>utterText = JStr ''A'', rate = 95 / 100, pitch = 105 / 100,
                          volume = 1, voice = None\<rparr>]"
    by (simp add: casTick_def okResponse_def initialView_def speakWithTone_def toneOf_def
        strict_eq_def mkThought_def)
  have cin: "snd (cinematicTick [] (initialCinematic\<lparr>voiceEnabled := True\<rparr>)
                 (okResponse (mkThought ''A'' (1 / 2) ''LOW'' [''person''])))
       = [GetVoices, Cancel,
          Speak \<lparr>utterText = JStr phraseLow, rate = 92 / 100, pitch = 105 / 100, volume = 1,
                  voice = None\<rparr>]"
    by (simp add: cinematicTick_def humanizeThought_mkThought okResponse_def
        initialCinematic_def speakCinematic_def preferredVoice_def strict_eq_def phraseLow_def)
  show ?thesis
    by (simp add: lcc cas cin lccCleanup_def cinematicCleanup_def casCleanup_def)
qed

end
